theory Spec2Isabelle
  imports Main
begin

section \<open>Text\<close>

text \<open>
  The program is Python 2 and works on decoded text (\<^verbatim>\<open>err.decode("UTF-8")\<close> in
  \<^verbatim>\<open>_gcc.py\<close>; the code pattern of the parser is a \<^verbatim>\<open>u"..."\<close> literal with the
  quotation marks U+2018 and U+2019). A string is therefore a list of code points, and a
  literal of the source is written \<open>u ''...''\<close>.
\<close>

type_synonym uchar = int
type_synonym ustring = "uchar list"

abbreviation cp :: "char \<Rightarrow> uchar" where
  "cp \<equiv> of_char"

definition u :: "string \<Rightarrow> ustring" where
  "u s = map cp s"

text \<open>
  The two quotation marks of the code pattern, \<^verbatim>\<open>u"\u2018[^\u2019]+\u2019"\<close>.
\<close>

definition lquote :: uchar where
  "lquote = 8216"

definition rquote :: uchar where
  "rquote = 8217"

subsection \<open>The string methods the source calls\<close>

text \<open>
  \<^verbatim>\<open>unicode.strip()\<close> and \<^verbatim>\<open>unicode.split()\<close> of Python 2.7 remove the code points
  that \<^verbatim>\<open>unicode.isspace\<close> accepts.
\<close>

definition is_space :: "uchar \<Rightarrow> bool" where
  "is_space c \<longleftrightarrow>
     (9 \<le> c \<and> c \<le> 13) \<or> (28 \<le> c \<and> c \<le> 32) \<or> c = 133 \<or> c = 160 \<or> c = 5760 \<or>
     c = 6158 \<or> (8192 \<le> c \<and> c \<le> 8202) \<or> c = 8232 \<or> c = 8233 \<or> c = 8239 \<or>
     c = 8287 \<or> c = 12288"

definition py_strip :: "ustring \<Rightarrow> ustring" where
  "py_strip s = rev (dropWhile is_space (rev (dropWhile is_space s)))"

text \<open>\<^verbatim>\<open>s.split()\<close>: the maximal runs of non-space code points.\<close>

fun py_split_ws :: "ustring \<Rightarrow> ustring \<Rightarrow> ustring list" where
  "py_split_ws w [] = (if w = [] then [] else [w])"
| "py_split_ws w (c # cs) =
     (if is_space c then (if w = [] then py_split_ws [] cs else w # py_split_ws [] cs)
      else py_split_ws (w @ [c]) cs)"

text \<open>\<^verbatim>\<open>s.split(sep)\<close> for a separator of one code point, as in \<^verbatim>\<open>split("=")\<close>.\<close>

fun py_split_on :: "uchar \<Rightarrow> ustring \<Rightarrow> ustring \<Rightarrow> ustring list" where
  "py_split_on sep w [] = [w]"
| "py_split_on sep w (c # cs) =
     (if c = sep then w # py_split_on sep [] cs else py_split_on sep (w @ [c]) cs)"

definition py_startswith :: "ustring \<Rightarrow> ustring \<Rightarrow> bool" where
  "py_startswith s p \<longleftrightarrow> take (length p) s = p"

text \<open>\<^verbatim>\<open>sub in s\<close>.\<close>

fun py_in :: "ustring \<Rightarrow> ustring \<Rightarrow> bool" where
  "py_in sub [] \<longleftrightarrow> sub = []"
| "py_in sub (c # cs) \<longleftrightarrow> py_startswith (c # cs) sub \<or> py_in sub cs"

text \<open>\<^verbatim>\<open>s.find(sub)\<close>: the first index, or -1.\<close>

fun py_find :: "ustring \<Rightarrow> ustring \<Rightarrow> int" where
  "py_find [] sub = (if sub = [] then 0 else - 1)"
| "py_find (c # cs) sub =
     (if py_startswith (c # cs) sub then 0
      else (let r = py_find cs sub in if r < 0 then - 1 else r + 1))"

text \<open>
  \<^verbatim>\<open>s.replace(old, new)\<close>: the occurrences of \<open>old\<close> are found from the left and do not
  overlap; an empty \<open>old\<close> matches before every code point and at the end.
\<close>

function replace_scan :: "ustring \<Rightarrow> ustring \<Rightarrow> ustring \<Rightarrow> ustring" where
  "replace_scan s old new =
     (if old = [] \<or> s = [] then s
      else if py_startswith s old then new @ replace_scan (drop (length old) s) old new
      else hd s # replace_scan (tl s) old new)"
  by pat_completeness auto
termination
  by (relation "measure (\<lambda>(s, old, new). length s)") auto

declare replace_scan.simps [simp del]

definition py_replace :: "ustring \<Rightarrow> ustring \<Rightarrow> ustring \<Rightarrow> ustring" where
  "py_replace s old new =
     (if old = [] then new @ concat (map (\<lambda>c. c # new) s) else replace_scan s old new)"

text \<open>\<^verbatim>\<open>sep.join(xs)\<close>.\<close>

fun py_join :: "ustring \<Rightarrow> ustring list \<Rightarrow> ustring" where
  "py_join sep [] = []"
| "py_join sep [x] = x"
| "py_join sep (x # y # ys) = x @ sep @ py_join sep (y # ys)"

text \<open>\<^verbatim>\<open>s[a:b]\<close> for offsets that are not negative.\<close>

definition slice :: "ustring \<Rightarrow> nat \<Rightarrow> nat \<Rightarrow> ustring" where
  "slice s a b = take (b - a) (drop a s)"

subsection \<open>Errors\<close>

datatype error = ValueError | IndexError

text \<open>
  \<^verbatim>\<open>int(s)\<close>: surrounding space is dropped, one sign is allowed, and the rest must be
  decimal digits. The digits of the model are the ASCII ones; a decimal digit of another
  script, which Python would convert too, is a \<open>ValueError\<close> here.
\<close>

definition is_digit :: "uchar \<Rightarrow> bool" where
  "is_digit c \<longleftrightarrow> 48 \<le> c \<and> c \<le> 57"

fun digits_value :: "int \<Rightarrow> ustring \<Rightarrow> int" where
  "digits_value acc [] = acc"
| "digits_value acc (c # cs) = digits_value (10 * acc + (c - 48)) cs"

definition py_int :: "ustring \<Rightarrow> error + int" where
  "py_int s =
     (let t = py_strip s;
          neg = (t \<noteq> [] \<and> hd t = cp CHR ''-'');
          ds = (if t \<noteq> [] \<and> (hd t = cp CHR ''-'' \<or> hd t = cp CHR ''+'') then tl t else t)
      in if ds \<noteq> [] \<and> list_all is_digit ds
         then Inr (if neg then - digits_value 0 ds else digits_value 0 ds)
         else Inl ValueError)"

section \<open>The parser (\<^verbatim>\<open>gcc/parser.py\<close>)\<close>

subsection \<open>\<^verbatim>\<open>Parser._next_token\<close>\<close>

text \<open>
  \<^verbatim>\<open>depth\<close> is a dict whose four keys never change, so it is the function from a key to
  its counter, read at the keys only; \<^verbatim>\<open>ends\<close> is the dict from a closing character to
  its opening one.
\<close>

type_synonym depth = "uchar \<Rightarrow> int"

definition depth_keys :: "uchar list" where
  "depth_keys = [cp CHR ''<'', cp CHR ''['', cp CHR ''{'', cp CHR ''('']"

definition depth_init :: depth where
  "depth_init = (\<lambda>k. 0)"

definition depth_values :: "depth \<Rightarrow> int list" where
  "depth_values d = map d depth_keys"

definition ends :: "uchar \<rightharpoonup> uchar" where
  "ends = map_of [(cp CHR ''>'', cp CHR ''<''), (cp CHR '']'', cp CHR ''[''),
                  (cp CHR ''}'', cp CHR ''{''), (cp CHR '')'', cp CHR ''('')]"

definition delims :: "uchar list" where
  "delims = [cp CHR '','', cp CHR ''='']"

text \<open>
  The loop over \<^verbatim>\<open>enumerate(line[begin:])\<close>; falling off its end, and the bare
  \<^verbatim>\<open>return\<close>, give \<^verbatim>\<open>None\<close>. The offset is a natural number: the default is 0 and
  the one caller passes \<^verbatim>\<open>message.find(container) + len(container) + 1\<close> for a container
  that occurs in the message.
\<close>

fun next_token_loop :: "ustring \<Rightarrow> nat \<Rightarrow> depth \<Rightarrow> nat \<Rightarrow> ustring \<Rightarrow> ustring option" where
  "next_token_loop line begin d i [] = None"
| "next_token_loop line begin d i (c # cs) =
     (if c \<in> set delims \<and> set (depth_values d) = {0}
      then Some (py_strip (slice line begin (begin + i)))
      else if c \<in> set depth_keys then next_token_loop line begin (d(c := d c + 1)) (i + 1) cs
      else (case ends c of
              Some k \<Rightarrow>
                (let d' = d(k := d k - 1)
                 in if d' k < 0 then None else next_token_loop line begin d' (i + 1) cs)
            | None \<Rightarrow> next_token_loop line begin d (i + 1) cs))"

definition next_token :: "ustring \<Rightarrow> nat \<Rightarrow> ustring option" where
  "next_token line begin = next_token_loop line begin depth_init 0 (drop begin line)"

subsection \<open>The regular expressions of \<^verbatim>\<open>Parser.__init__\<close>\<close>

text \<open>
  Each pattern is written as the matcher it denotes. Where a pattern repeats a character
  class and then asks for a character outside the class, the longest run is the only
  candidate, so \<open>takeWhile\<close> and \<open>dropWhile\<close> give the match.

  \<^verbatim>\<open>$\<close> (no MULTILINE flag) holds at the end of the text and before a final newline.
\<close>

definition at_dollar :: "ustring \<Rightarrow> bool" where
  "at_dollar rest \<longleftrightarrow> rest = [] \<or> rest = [10]"

text \<open>
  \<^verbatim>\<open>re.split(r"(?:(?<!:):(?!:))|\,$", s)\<close>: a colon with no colon on either side, or a
  comma at \<^verbatim>\<open>$\<close>; \<open>prev\<close> is the code point before the current one.
\<close>

fun split_line_group_sep :: "uchar option \<Rightarrow> ustring \<Rightarrow> ustring \<Rightarrow> ustring list" where
  "split_line_group_sep prev w [] = [w]"
| "split_line_group_sep prev w (c # cs) =
     (if (c = cp CHR '':'' \<and> prev \<noteq> Some (cp CHR '':'') \<and>
            (case cs of [] \<Rightarrow> True | n # _ \<Rightarrow> n \<noteq> cp CHR '':''))
         \<or> (c = cp CHR '','' \<and> at_dollar cs)
      then w # split_line_group_sep (Some c) [] cs
      else split_line_group_sep (Some c) (w @ [c]) cs)"

text \<open>\<^verbatim>\<open>re.match("(?P<file>[^: ]+)", s)\<close>.\<close>

definition match_file :: "ustring \<Rightarrow> bool" where
  "match_file s \<longleftrightarrow> (case s of [] \<Rightarrow> False | c # _ \<Rightarrow> c \<noteq> cp CHR '':'' \<and> c \<noteq> cp CHR '' '')"

text \<open>
  \<^verbatim>\<open>re.match(r"\/usr\/include\/[^:]+:(?:[0-9]+(?:: |\,$)?)?", s)\<close>: the text after the
  match, or \<open>None\<close>.
\<close>

definition match_sys_file :: "ustring \<Rightarrow> ustring option" where
  "match_sys_file s =
     (if py_startswith s (u ''/usr/include/'') then
        (let r = drop 13 s;
             path = takeWhile (\<lambda>c. c \<noteq> cp CHR '':'') r;
             r1 = dropWhile (\<lambda>c. c \<noteq> cp CHR '':'') r
         in if path = [] \<or> r1 = [] then None
            else (let r2 = tl r1;
                      ds = takeWhile is_digit r2;
                      r3 = dropWhile is_digit r2
                  in if ds = [] then Some r2
                     else if py_startswith r3 (u '': '') then Some (drop 2 r3)
                     else if py_startswith r3 (u '','') \<and> at_dollar (drop 1 r3)
                          then Some (drop 1 r3)
                     else Some r3))
      else None)"

text \<open>\<^verbatim>\<open>re.match(r"\(\.[A-Za-z0-9_]+\+0x[A-Fa-f0-9_]+\)", s)\<close>.\<close>

definition is_word :: "uchar \<Rightarrow> bool" where
  "is_word c \<longleftrightarrow> (65 \<le> c \<and> c \<le> 90) \<or> (97 \<le> c \<and> c \<le> 122) \<or> is_digit c \<or> c = 95"

definition is_hex :: "uchar \<Rightarrow> bool" where
  "is_hex c \<longleftrightarrow> (65 \<le> c \<and> c \<le> 70) \<or> (97 \<le> c \<and> c \<le> 102) \<or> is_digit c \<or> c = 95"

definition match_linker :: "ustring \<Rightarrow> bool" where
  "match_linker s \<longleftrightarrow>
     py_startswith s (u ''(.'') \<and>
     (let r = drop 2 s; sym = takeWhile is_word r; r1 = dropWhile is_word r
      in sym \<noteq> [] \<and> py_startswith r1 (u ''+0x'') \<and>
         (let r2 = drop 3 r1; hex = takeWhile is_hex r2; r3 = dropWhile is_hex r2
          in hex \<noteq> [] \<and> py_startswith r3 (u '')'')))"

text \<open>\<^verbatim>\<open>re.match("(?P<line>[0-9]+)", s)\<close>, and the same pattern for the column.\<close>

definition match_line :: "ustring \<Rightarrow> bool" where
  "match_line s \<longleftrightarrow> (case s of [] \<Rightarrow> False | c # _ \<Rightarrow> is_digit c)"

definition match_column :: "ustring \<Rightarrow> bool" where
  "match_column s \<longleftrightarrow> (case s of [] \<Rightarrow> False | c # _ \<Rightarrow> is_digit c)"

text \<open>\<^verbatim>\<open>re.match("(?P<message>.+)", s)\<close>: the dot takes anything but a newline.\<close>

definition match_message :: "ustring \<Rightarrow> bool" where
  "match_message s \<longleftrightarrow> (case s of [] \<Rightarrow> False | c # _ \<Rightarrow> c \<noteq> 10)"

text \<open>
  \<^verbatim>\<open>re.findall(u"(?P<code>\u2018[^\u2019]+\u2019)", s)\<close>: \<open>match_code\<close> is the match
  at the start of the text, with the text after it.
\<close>

definition match_code :: "ustring \<Rightarrow> (ustring \<times> ustring) option" where
  "match_code s =
     (case s of
        [] \<Rightarrow> None
      | c # r \<Rightarrow>
          if c = lquote then
            (let body = takeWhile (\<lambda>x. x \<noteq> rquote) r; r1 = dropWhile (\<lambda>x. x \<noteq> rquote) r
             in if body = [] \<or> r1 = [] then None else Some (lquote # body @ [rquote], tl r1))
          else None)"

function findall_code :: "ustring \<Rightarrow> ustring list" where
  "findall_code s =
     (if s = [] then []
      else (case match_code s of
              Some (m, r) \<Rightarrow> m # findall_code r
            | None \<Rightarrow> findall_code (tl s)))"
  by pat_completeness auto
termination
proof (relation "measure length")
  fix s :: ustring and x2 m r
  assume "s \<noteq> []" and "match_code s = Some x2" and "(m, r) = x2"
  then have a: "match_code s = Some (m, r)" by simp
  then obtain c t where s: "s = c # t"
    by (cases s) (auto simp: match_code_def)
  from a s have "r = tl (dropWhile (\<lambda>x. x \<noteq> rquote) t)"
    by (auto simp: match_code_def Let_def split: if_splits)
  then have "length r \<le> length t"
    using length_dropWhile_le [of "\<lambda>x. x \<noteq> rquote" t] by simp
  with s show "(r, s) \<in> measure length" by simp
qed auto

declare findall_code.simps [simp del]

subsection \<open>The attributes\<close>

text \<open>
  The dict of a code fragment has the key \<^verbatim>\<open>raw\<close>; the beautifier adds
  \<^verbatim>\<open>with_tokens\<close> and \<^verbatim>\<open>formatted\<close>, which are absent until then. In the same way
  \<^verbatim>\<open>sys_file\<close> is a key of the attributes only once a file name has been seen.
\<close>

datatype line_type = LT_ERROR | LT_WARNING | LT_MESSAGE | LT_NOTE

record code =
  c_raw :: ustring
  c_with_tokens :: "(ustring \<times> ustring) list option"
  c_formatted :: "ustring option"

record message =
  m_raw :: ustring
  m_codelist :: "code list"

record attributes =
  a_raw :: ustring
  a_type :: "line_type option"
  a_file :: ustring
  a_line :: int
  a_column :: int
  a_message :: message
  a_sys_file :: "bool option"

record parser =
  p_line :: ustring
  p_attributes :: attributes

definition new_code :: "ustring \<Rightarrow> code" where
  "new_code r = \<lparr>c_raw = r, c_with_tokens = None, c_formatted = None\<rparr>"

text \<open>\<^verbatim>\<open>Parser.__init__(line)\<close>: the part of the state that \<^verbatim>\<open>parse_line\<close> reads.\<close>

definition Parser_init :: "ustring \<Rightarrow> parser" where
  "Parser_init line =
     \<lparr>p_line = line,
      p_attributes = \<lparr>a_raw = line, a_type = None, a_file = [], a_line = - 1, a_column = - 1,
                      a_message = \<lparr>m_raw = [], m_codelist = []\<rparr>, a_sys_file = None\<rparr>\<rparr>"

subsection \<open>\<^verbatim>\<open>Parser._parse_message\<close>\<close>

definition Parser_parse_message :: "ustring list \<Rightarrow> message" where
  "Parser_parse_message segments =
     (let message = py_join (u '': '') segments;
          codes = findall_code message
      in \<lparr>m_raw = message,
          m_codelist =
            (if codes \<noteq> [] then map (\<lambda>c. new_code (butlast (drop 1 c))) codes
             else if length segments \<noteq> 0 then
               (if hd segments = u ''candidates are''
                then [new_code (py_join (u '':'') (drop 1 segments))]
                else [new_code (py_join (u '':'') segments)])
             else [])\<rparr>)"

subsection \<open>\<^verbatim>\<open>Parser.parse_line\<close>\<close>

text \<open>
  \<^verbatim>\<open>segments[i]\<close> raises \<^verbatim>\<open>IndexError\<close> beyond the end of the list.
\<close>

definition seg :: "ustring list \<Rightarrow> nat \<Rightarrow> error + ustring" where
  "seg segments i = (if i < length segments then Inr (segments ! i) else Inl IndexError)"

text \<open>
  \<^verbatim>\<open>parse_line\<close> calls \<^verbatim>\<open>self._parse_message\<close>, which the beautifier overrides and
  which may raise there, so the method is the parameter \<open>pm\<close>. The result is the returned
  dict, which is \<^verbatim>\<open>self._attributes\<close> itself, with the state of the instance; when an
  exception leaves the method there is no result, and the instance is not used again.

  The branch taken once \<^verbatim>\<open>segments[1]\<close> has matched the line pattern comes first.
\<close>

definition parse_numbered ::
  "(ustring list \<Rightarrow> error + message) \<Rightarrow> ustring list \<Rightarrow> attributes \<Rightarrow> error + attributes" where
  "parse_numbered pm segments a0 =
     (case py_int (segments ! 1) of
        Inl e \<Rightarrow> Inl e
      | Inr n \<Rightarrow>
          (let a = a0\<lparr>a_line := n\<rparr>
           in if u ''error'' \<in> set segments \<and> length segments > 2 then
                (let a = a\<lparr>a_type := Some LT_ERROR\<rparr>
                 in if segments ! 2 = u ''error'' then
                      (case pm (drop 3 segments) of
                         Inl e \<Rightarrow> Inl e
                       | Inr m \<Rightarrow> Inr (a\<lparr>a_message := m\<rparr>))
                    else
                      (case seg segments 3 of
                         Inl e \<Rightarrow> Inl e
                       | Inr s3 \<Rightarrow>
                           if s3 = u ''error'' then
                             (case (if match_column (segments ! 2)
                                    then (case py_int (segments ! 2) of
                                            Inl e \<Rightarrow> Inl e
                                          | Inr k \<Rightarrow> Inr (a\<lparr>a_column := k\<rparr>))
                                    else Inr a) of
                                Inl e \<Rightarrow> Inl e
                              | Inr a \<Rightarrow>
                                  (case pm (drop 4 segments) of
                                     Inl e \<Rightarrow> Inl e
                                   | Inr m \<Rightarrow> Inr (a\<lparr>a_message := m\<rparr>)))
                           else Inr a))
              else
                (case seg segments 2 of
                   Inl e \<Rightarrow> Inl e
                 | Inr s2 \<Rightarrow>
                     if s2 = u ''warning'' then
                       (case pm (drop 3 segments) of
                          Inl e \<Rightarrow> Inl e
                        | Inr m \<Rightarrow> Inr (a\<lparr>a_type := Some LT_WARNING, a_message := m\<rparr>))
                     else if s2 = u ''note'' then
                       (case pm (drop 3 segments) of
                          Inl e \<Rightarrow> Inl e
                        | Inr m \<Rightarrow> Inr (a\<lparr>a_type := Some LT_NOTE, a_message := m\<rparr>))
                     else
                       (case pm (drop 2 segments) of
                          Inl e \<Rightarrow> Inl e
                        | Inr m \<Rightarrow> Inr (a\<lparr>a_type := Some LT_NOTE, a_message := m\<rparr>)))))"

text \<open>The dispatch on \<^verbatim>\<open>segments[0]\<close> and \<^verbatim>\<open>segments[1]\<close>, for two segments or more.\<close>

definition parse_segments ::
  "(ustring list \<Rightarrow> error + message) \<Rightarrow> ustring list \<Rightarrow> attributes \<Rightarrow> error + attributes" where
  "parse_segments pm segments0 a =
     (let s0 = hd segments0;
          s0 = (if py_in (u ''In file included from'') s0
                then concat (drop 4 (py_split_ws [] s0))
                else if take 4 s0 = u ''from'' then drop 5 s0
                else s0);
          segments = s0 # tl segments0
      in if s0 = u ''collect2'' then Inr (a\<lparr>a_type := Some LT_MESSAGE\<rparr>)
         else if match_file s0 then
           (let a = a\<lparr>a_file := s0, a_sys_file := Some (match_sys_file s0 \<noteq> None)\<rparr>
            in if match_linker (segments ! 1) then
                 (case pm (drop 2 segments) of
                    Inl e \<Rightarrow> Inl e
                  | Inr m \<Rightarrow> Inr (a\<lparr>a_type := Some LT_WARNING, a_message := m\<rparr>))
               else if match_line (segments ! 1) then parse_numbered pm segments a
               else if match_message (segments ! 1) then
                 (case pm (drop 1 segments) of
                    Inl e \<Rightarrow> Inl e
                  | Inr m \<Rightarrow> Inr (a\<lparr>a_type := Some LT_NOTE, a_message := m\<rparr>))
               else Inr a)
         else Inr a)"

definition parse_line ::
  "(ustring list \<Rightarrow> error + message) \<Rightarrow> parser \<Rightarrow> ustring \<Rightarrow> error + attributes \<times> parser" where
  "parse_line pm self line =
     (let l = (if line \<noteq> [] \<and> line \<noteq> p_line self then line else p_line self);
          l = py_strip l;
          a = (p_attributes self)\<lparr>a_raw := l\<rparr>;
          segments = map py_strip (split_line_group_sep None [] l);
          r = (if length segments = 0 then Inr a
               else if length segments = 1 then
                 (case pm segments of
                    Inl e \<Rightarrow> Inl e
                  | Inr m \<Rightarrow>
                      Inr (a\<lparr>a_file := u ''<unknown>'', a_type := Some LT_NOTE, a_message := m\<rparr>))
               else parse_segments pm segments a)
      in (case r of
            Inl e \<Rightarrow> Inl e
          | Inr a' \<Rightarrow> Inr (a', \<lparr>p_line = l, p_attributes = a'\<rparr>)))"

text \<open>The parser's own method never raises.\<close>

definition Parser_parse_line :: "parser \<Rightarrow> ustring \<Rightarrow> error + attributes \<times> parser" where
  "Parser_parse_line = parse_line (\<lambda>segments. Inr (Parser_parse_message segments))"

section \<open>The beautifier (\<^verbatim>\<open>gcc/beautifier.py\<close>)\<close>

definition LV_NONE :: int where "LV_NONE = 0"
definition LV_NORMAL :: int where "LV_NORMAL = 1"
definition LV_MODERATE :: int where "LV_MODERATE = 2"
definition LV_ALL :: int where "LV_ALL = 4"

text \<open>
  The two tables of \<^verbatim>\<open>Beautifier.__init__\<close>, in the order of the source text. They are
  dicts, which Python 2 walks in hash order; nothing below depends on that order, since
  each concrete text that is evaluated holds no entry of either table.
\<close>

definition str_types :: "(ustring \<times> ustring) list" where
  "str_types =
     [(u ''basic_ios<%s, char_traits<%s>>'', u ''ios''),
      (u ''basic_streambuf<%s, char_traits<%s>>'', u ''streambuf''),
      (u ''basic_istream<%s, char_traits<%s>>'', u ''istream''),
      (u ''basic_ostream<%s, char_traits<%s>>'', u ''ostream''),
      (u ''basic_iostream<%s, char_traits<%s>>'', u ''iostream''),
      (u ''basic_ifstream<%s, char_traits<%s>>'', u ''ifstream''),
      (u ''basic_ofstream<%s, char_traits<%s>>'', u ''ofstream''),
      (u ''basic_fstream<%s, char_traits<%s>>'', u ''fstream''),
      (u ''basic_istringstream<%s, char_traits<%s>, allocator<%s>>'', u ''istringstream''),
      (u ''basic_ostringstream<%s, char_traits<%s>, allocator<%s>>'', u ''ostringstream''),
      (u ''basic_stringstream<%s, char_traits<%s>, allocator<%s>>'', u ''stringstream''),
      (u ''basic_string<%s, char_traits<%s>, allocator<%s>>'', u ''string'')]"

definition replacements :: "(ustring \<times> (ustring \<times> ustring) list) list" where
  "replacements =
     [(u ''vector'', [(u ''vector<%s, allocator<%s>>'', u ''vector<%s>''),
                      (u ''typename vector<%s>::value_type'', u ''%s'')]),
      (u ''list'', [(u ''list<%s, allocator<%s>>'', u ''list<%s>''),
                    (u ''typename list<%s>::value_type'', u ''%s'')]),
      (u ''queue'', [(u ''queue<%s, deque<%s>>'', u ''queue<%s>''),
                     (u ''typename queue<%s>::value_type'', u ''%s'')]),
      (u ''deque'', [(u ''deque<%s, allocator<%s>>'', u ''deque<%s>''),
                     (u ''typename deque<%s>::value_type'', u ''%s'')]),
      (u ''stack'', [(u ''stack<%s, deque<%s>>'', u ''stack<%s>''),
                     (u ''typename stack<%s>::value_type'', u ''%s'')]),
      (u ''set'', [(u ''set<%s, less<%s>, allocator<%s>>'', u ''set<%s>''),
                   (u ''typename set<%s>::value_type'', u ''%s'')])]"

definition char_types :: "ustring list" where
  "char_types = [u ''char'', u ''wchar_t'']"

subsection \<open>The pattern \<^verbatim>\<open>_with_stmt\<close>\<close>

text \<open>
  \<^verbatim>\<open>\s\<close> of a pattern compiled without the UNICODE flag.
\<close>

definition is_re_space :: "uchar \<Rightarrow> bool" where
  "is_re_space c \<longleftrightarrow> c = 32 \<or> (9 \<le> c \<and> c \<le> 13)"

text \<open>
  \<^verbatim>\<open>r"\[with\s*(?P<with>[^\]]+)\]"\<close> at the start of the text: the group and the text
  after the match. The body runs to the first \<^verbatim>\<open>]\<close>; the group is the body without
  its leading space, and when the body is nothing but space the pattern gives the last
  of it back to the group.
\<close>

definition match_with_stmt :: "ustring \<Rightarrow> (ustring \<times> ustring) option" where
  "match_with_stmt s =
     (if py_startswith s (u ''[with'') then
        (let r = drop 5 s;
             body = takeWhile (\<lambda>c. c \<noteq> cp CHR '']'') r;
             r1 = dropWhile (\<lambda>c. c \<noteq> cp CHR '']'') r;
             ws = takeWhile is_re_space body
         in if body = [] \<or> r1 = [] then None
            else Some (if length ws < length body then drop (length ws) body else [last body],
                       tl r1))
      else None)"

text \<open>\<^verbatim>\<open>re.search(self._with_stmt, code)\<close>: the group of the first match.\<close>

fun search_with_stmt :: "ustring \<Rightarrow> ustring option" where
  "search_with_stmt [] = None"
| "search_with_stmt (c # cs) =
     (case match_with_stmt (c # cs) of
        Some (g, r) \<Rightarrow> Some g
      | None \<Rightarrow> search_with_stmt cs)"

text \<open>\<^verbatim>\<open>re.sub(self._with_stmt, "", s)\<close>.\<close>

function sub_with_stmt :: "ustring \<Rightarrow> ustring" where
  "sub_with_stmt s =
     (if s = [] then []
      else (case match_with_stmt s of
              Some (g, r) \<Rightarrow> sub_with_stmt r
            | None \<Rightarrow> hd s # sub_with_stmt (tl s)))"
  by pat_completeness auto
termination
proof (relation "measure length")
  fix s :: ustring and x2 g r
  assume "s \<noteq> []" and "match_with_stmt s = Some x2" and "(g, r) = x2"
  then have a: "match_with_stmt s = Some (g, r)" by simp
  then have r: "r = tl (dropWhile (\<lambda>c. c \<noteq> cp CHR '']'') (drop 5 s))"
    and st: "py_startswith s (u ''[with'')"
    by (auto simp: match_with_stmt_def Let_def split: if_splits)
  from st have "length (u ''[with'') \<le> length s"
    unfolding py_startswith_def by (metis length_take min.cobounded1)
  then have l5: "5 \<le> length s" by (simp add: u_def)
  from r have "length r \<le> length s - 5"
    using length_dropWhile_le [of "\<lambda>c. c \<noteq> cp CHR '']''" "drop 5 s"] by simp
  with l5 show "(r, s) \<in> measure length" by simp
qed auto

declare sub_with_stmt.simps [simp del]

text \<open>\<^verbatim>\<open>re.sub(self._line_groups["sys_file"], "", s)\<close>.\<close>

function sub_sys_file :: "ustring \<Rightarrow> ustring" where
  "sub_sys_file s =
     (if s = [] then []
      else (case match_sys_file s of
              Some r \<Rightarrow> sub_sys_file r
            | None \<Rightarrow> hd s # sub_sys_file (tl s)))"
  by pat_completeness auto
termination
proof (relation "measure length")
  fix s :: ustring and r
  assume ne: "s \<noteq> []" and a: "match_sys_file s = Some r"
  let ?r1 = "dropWhile (\<lambda>c. c \<noteq> cp CHR '':'') (drop 13 s)"
  let ?r2 = "tl ?r1"
  let ?r3 = "dropWhile is_digit ?r2"
  from a have st: "py_startswith s (u ''/usr/include/'')"
    by (auto simp: match_sys_file_def split: if_splits)
  then have "length (u ''/usr/include/'') \<le> length s"
    unfolding py_startswith_def by (metis length_take min.cobounded1)
  then have l13: "13 \<le> length s" by (simp add: u_def)
  from a st have "r = ?r2 \<or> r = drop 2 ?r3 \<or> r = drop 1 ?r3 \<or> r = ?r3"
    by (auto simp: match_sys_file_def Let_def split: if_splits)
  moreover have "length ?r2 \<le> length s - 13"
    using length_dropWhile_le [of "\<lambda>c. c \<noteq> cp CHR '':''" "drop 13 s"] by simp
  moreover have "length ?r3 \<le> length ?r2"
    by (rule length_dropWhile_le)
  ultimately have "length r \<le> length s - 13"
    by auto
  with l13 show "(r, s) \<in> measure length" by simp
qed auto

declare sub_sys_file.simps [simp del]

subsection \<open>\<^verbatim>\<open>Beautifier._parse_with_stmts\<close>\<close>

text \<open>
  The loop over \<^verbatim>\<open>enumerate(stmt + ",")\<close>. The unpacking
  \<^verbatim>\<open>key, value = stmt[begin:i].split("=")\<close> raises \<^verbatim>\<open>ValueError\<close> unless the split
  gives two parts.
\<close>

fun with_loop ::
  "ustring \<Rightarrow> depth \<Rightarrow> nat \<Rightarrow> nat \<Rightarrow> (ustring \<times> ustring) list \<Rightarrow> ustring
     \<Rightarrow> error + (ustring \<times> ustring) list" where
  "with_loop stmt d begin i tokens [] = Inr tokens"
| "with_loop stmt d begin i tokens (c # cs) =
     (if c = cp CHR '','' \<and> set (depth_values d) = {0} then
        (case py_split_on (cp CHR ''='') [] (slice stmt begin i) of
           [key, val] \<Rightarrow>
             with_loop stmt d (i + 1) (i + 1) (tokens @ [(py_strip key, py_strip val)]) cs
         | _ \<Rightarrow> Inl ValueError)
      else if c \<in> set depth_keys then with_loop stmt (d(c := d c + 1)) begin (i + 1) tokens cs
      else (case ends c of
              Some k \<Rightarrow> with_loop stmt (d(k := d k - 1)) begin (i + 1) tokens cs
            | None \<Rightarrow> with_loop stmt d begin (i + 1) tokens cs))"

definition parse_with_stmts :: "ustring \<Rightarrow> error + (ustring \<times> ustring) list" where
  "parse_with_stmts code =
     (case search_with_stmt code of
        None \<Rightarrow> Inr []
      | Some stmt \<Rightarrow> with_loop stmt depth_init 0 0 [] (stmt @ [cp CHR '','']))"

subsection \<open>\<^verbatim>\<open>Beautifier._compact_typedefs\<close> and \<^verbatim>\<open>Beautifier._parse_templates\<close>\<close>

definition compact_one :: "ustring \<times> ustring \<Rightarrow> ustring \<Rightarrow> ustring \<Rightarrow> ustring" where
  "compact_one t message c =
     (let tp = py_replace (fst t) (u ''%s'') c
      in if py_in tp message then
           (let r = (if hd c = cp CHR ''w'' then u ''w'' @ snd t else snd t)
            in py_replace message tp r)
         else message)"

definition compact_typedefs :: "ustring \<Rightarrow> ustring" where
  "compact_typedefs message =
     foldl (\<lambda>m t. foldl (compact_one t) m char_types) message str_types"

definition parse_templates_one ::
  "ustring \<Rightarrow> ustring \<times> (ustring \<times> ustring) list \<Rightarrow> ustring" where
  "parse_templates_one message entry =
     (let container = fst entry
      in if py_in container message then
           (let begin = py_find message container + int (length container) + 1
            in (case next_token message (nat begin) of
                  None \<Rightarrow> message
                | Some tp \<Rightarrow>
                    if tp = [] then message
                    else foldl (\<lambda>m (full, small).
                                  py_replace m (py_replace full (u ''%s'') tp)
                                    (py_replace small (u ''%s'') tp))
                           message (snd entry)))
         else message)"

definition parse_templates :: "ustring \<Rightarrow> ustring" where
  "parse_templates message = foldl parse_templates_one message replacements"

subsection \<open>\<^verbatim>\<open>Beautifier._parse_message\<close>\<close>

fun add_with_tokens :: "code list \<Rightarrow> error + code list" where
  "add_with_tokens [] = Inr []"
| "add_with_tokens (c # cs) =
     (case parse_with_stmts (c_raw c) of
        Inl e \<Rightarrow> Inl e
      | Inr ts \<Rightarrow>
          (case add_with_tokens cs of
             Inl e \<Rightarrow> Inl e
           | Inr cs' \<Rightarrow> Inr (c\<lparr>c_with_tokens := Some ts\<rparr> # cs')))"

definition Beautifier_parse_message :: "ustring list \<Rightarrow> error + message" where
  "Beautifier_parse_message segments =
     (let attributes = Parser_parse_message segments
      in (case add_with_tokens (m_codelist attributes) of
            Inl e \<Rightarrow> Inl e
          | Inr cs \<Rightarrow> Inr (attributes\<lparr>m_codelist := cs\<rparr>)))"

definition Beautifier_parse_line :: "parser \<Rightarrow> ustring \<Rightarrow> error + attributes \<times> parser" where
  "Beautifier_parse_line = parse_line Beautifier_parse_message"

subsection \<open>\<^verbatim>\<open>Beautifier.build\<close>\<close>

text \<open>The loop \<^verbatim>\<open>while "> >" in s: s = s.replace("> >", ">>")\<close>.\<close>

function collapse :: "ustring \<Rightarrow> ustring" where
  "collapse s = (if py_in (u ''> >'') s then collapse (py_replace s (u ''> >'') (u ''>>'')) else s)"
  by pat_completeness auto
termination
proof (relation "measure length")
  show "wf (measure length)" by simp
next
  fix s :: ustring
  assume a: "py_in (u ''> >'') s"
  have len: "length (u ''> >'') = 3" "length (u ''>>'') = 2" "u ''> >'' \<noteq> []"
    by (simp_all add: u_def)
  have sw: "py_startswith t (u ''> >'') \<Longrightarrow> 3 \<le> length t" for t
    unfolding py_startswith_def using len(1) by (metis length_take min.cobounded1)
  have le: "length (replace_scan t (u ''> >'') (u ''>>'')) \<le> length t" for t
  proof (induction t rule: length_induct)
    case (1 t)
    show ?case
    proof (cases "t = []")
      case True
      then show ?thesis by (simp add: replace_scan.simps)
    next
      case ne: False
      show ?thesis
      proof (cases "py_startswith t (u ''> >'')")
        case True
        then have l3: "3 \<le> length t" by (rule sw)
        then have "length (drop 3 t) < length t" by simp
        with 1 have "length (replace_scan (drop 3 t) (u ''> >'') (u ''>>'')) \<le> length (drop 3 t)"
          by blast
        then have "length (replace_scan (drop 3 t) (u ''> >'') (u ''>>'')) + 2 \<le> length t"
          using l3 by simp
        then show ?thesis
          using True ne len by (subst replace_scan.simps) simp
      next
        case False
        have "length (tl t) < length t" using ne by simp
        with 1 have "length (replace_scan (tl t) (u ''> >'') (u ''>>'')) \<le> length (tl t)"
          by blast
        then have "length (replace_scan (tl t) (u ''> >'') (u ''>>'')) + 1 \<le> length t"
          using ne by (cases t) auto
        then show ?thesis
          using False ne len by (subst replace_scan.simps) simp
      qed
    qed
  qed
  have lt: "py_in (u ''> >'') t \<Longrightarrow> length (replace_scan t (u ''> >'') (u ''>>'')) < length t"
    for t
  proof (induction t)
    case Nil
    then show ?case using len by simp
  next
    case (Cons c cs)
    show ?case
    proof (cases "py_startswith (c # cs) (u ''> >'')")
      case True
      then have l3: "3 \<le> length (c # cs)" by (rule sw)
      have "length (replace_scan (drop 3 (c # cs)) (u ''> >'') (u ''>>''))
              \<le> length (drop 3 (c # cs))"
        by (rule le)
      then have "length (replace_scan (drop 3 (c # cs)) (u ''> >'') (u ''>>'')) + 2
              < length (c # cs)"
        using l3 by simp
      then show ?thesis
        using True len by (subst replace_scan.simps) simp
    next
      case False
      with Cons.prems have "py_in (u ''> >'') cs" by simp
      then have "length (replace_scan cs (u ''> >'') (u ''>>'')) < length cs"
        by (rule Cons.IH)
      then show ?thesis
        using False len by (subst replace_scan.simps) simp
    qed
  qed
  from lt [OF a] show "(py_replace s (u ''> >'') (u ''>>''), s) \<in> measure length"
    using len by (simp add: py_replace_def)
qed

declare collapse.simps [simp del]

text \<open>
  The rewriting of one code fragment at level Normal and above (the lines from the
  \<^verbatim>\<open>with_tokens\<close> test to \<^verbatim>\<open>_parse_templates\<close>).
\<close>

definition format_normal :: "(ustring \<times> ustring) list option \<Rightarrow> ustring \<Rightarrow> ustring" where
  "format_normal with_tokens f =
     (let f = (case with_tokens of
                 None \<Rightarrow> f
               | Some ts \<Rightarrow>
                   py_strip (sub_with_stmt (foldl (\<lambda>f (key, val). py_replace f key val) f ts)));
          f = collapse f;
          f = py_replace f (u ''std::'') [];
          f = py_replace f (u ''__gnu_cxx::'') [];
          f = compact_typedefs f
      in parse_templates f)"

text \<open>The two replacements of level Moderate and above.\<close>

definition format_moderate :: "ustring \<Rightarrow> ustring" where
  "format_moderate f = py_replace (py_replace f (u ''boost::detail::'') []) (u ''boost::'') []"

text \<open>
  The loop over the code list: \<open>done\<close> holds the fragments already rewritten. The first
  component of the result is the value of a \<^verbatim>\<open>return ""\<close> inside the loop.
\<close>

fun build_loop ::
  "int \<Rightarrow> ustring \<Rightarrow> code list \<Rightarrow> code list \<Rightarrow> ustring option \<times> ustring \<times> code list" where
  "build_loop level result done [] = (None, result, done)"
| "build_loop level result done (code # rest) =
     (let f = (case c_formatted code of None \<Rightarrow> c_raw code | Some f \<Rightarrow> f);
          f = (if level \<ge> LV_NORMAL then format_normal (c_with_tokens code) f else f)
      in if level \<ge> LV_MODERATE then
           (let result = sub_sys_file result
            in if py_startswith result (u ''error: '')
               then (Some [], result, done @ code\<lparr>c_formatted := Some f\<rparr> # rest)
               else (let f = format_moderate f
                     in build_loop level (py_replace result (c_raw code) f)
                          (done @ [code\<lparr>c_formatted := Some f\<rparr>]) rest))
         else build_loop level (py_replace result (c_raw code) f)
                (done @ [code\<lparr>c_formatted := Some f\<rparr>]) rest)"

text \<open>
  The state of a beautifier: the parser's, the level, the result and the wrapper. The
  wrapper is \<^verbatim>\<open>textwrap.TextWrapper(width, ...).fill\<close> of the standard library when
  wrapping is on, and is taken as it comes.
\<close>

record beautifier =
  b_parser :: parser
  b_level :: int
  b_result :: ustring
  b_wrapper :: "(ustring \<Rightarrow> ustring) option"

definition Beautifier_init ::
  "ustring \<Rightarrow> int \<Rightarrow> (ustring \<Rightarrow> ustring) option \<Rightarrow> beautifier" where
  "Beautifier_init line level wrapper =
     \<lparr>b_parser = Parser_init line, b_level = level, b_result = line, b_wrapper = wrapper\<rparr>"

definition set_codelist :: "beautifier \<Rightarrow> code list \<Rightarrow> beautifier" where
  "set_codelist self cs =
     self\<lparr>b_parser := (b_parser self)
            \<lparr>p_attributes := (p_attributes (b_parser self))
               \<lparr>a_message := (a_message (p_attributes (b_parser self)))\<lparr>m_codelist := cs\<rparr>\<rparr>\<rparr>\<rparr>"

definition build :: "beautifier \<Rightarrow> ustring \<times> beautifier" where
  "build self =
     (if b_level self = LV_NONE then (b_result self, self)
      else
        (case build_loop (b_level self) (b_result self) []
                (m_codelist (a_message (p_attributes (b_parser self)))) of
           (Some r, result, cs) \<Rightarrow> (r, (set_codelist self cs)\<lparr>b_result := result\<rparr>)
         | (None, result, cs) \<Rightarrow>
             (let result = py_strip result;
                  result = (case b_wrapper self of None \<Rightarrow> result | Some fill \<Rightarrow> fill result);
                  self = (set_codelist self cs)\<lparr>b_result := result\<rparr>
              in if list_ex (py_startswith result)
                      [u ''from'', u ''note: previous definition'', u ''In file included from'']
                 then ([], self)
                 else (result, self))))"

text \<open>
  The use of the class that its docstring and \<^verbatim>\<open>formatter.format\<close> show:
  \<^verbatim>\<open>b = Beautifier(line, level); b.parse_line(); b.build()\<close>, without a wrapper.
\<close>

definition beautify_line :: "ustring \<Rightarrow> int \<Rightarrow> error + ustring" where
  "beautify_line line level =
     (let b = Beautifier_init line level None
      in (case Beautifier_parse_line (b_parser b) [] of
            Inl e \<Rightarrow> Inl e
          | Inr (a, p) \<Rightarrow> Inr (fst (build (b\<lparr>b_parser := p\<rparr>)))))"

text \<open>
  The rewriting of a single fragment by \<^verbatim>\<open>_parse_message\<close> and \<^verbatim>\<open>build\<close>: the with
  clauses are read from the raw text, and the fragment goes through the steps of the
  level.
\<close>

definition beautify :: "ustring \<Rightarrow> int \<Rightarrow> error + ustring" where
  "beautify f level =
     (case parse_with_stmts f of
        Inl e \<Rightarrow> Inl e
      | Inr ts \<Rightarrow>
          Inr (let g = (if level \<ge> LV_NORMAL then format_normal (Some ts) f else f)
               in if level \<ge> LV_MODERATE then format_moderate g else g))"

section \<open>The two ways to use the parser\<close>

text \<open>
  The docstring of \<^verbatim>\<open>Parser\<close> gives two uses "both giving identical results": a new
  instance for each line, \<^verbatim>\<open>Parser(line).parse_line()\<close>, and one instance for all lines,
  \<^verbatim>\<open>p = Parser()\<close> and then \<^verbatim>\<open>p.parse_line(line)\<close> for each.
\<close>

definition classify :: "ustring \<Rightarrow> error + attributes" where
  "classify line = map_sum id fst (Parser_parse_line (Parser_init line) [])"

definition classify_fresh :: "ustring \<Rightarrow> error + attributes" where
  "classify_fresh line = map_sum id fst (Parser_parse_line (Parser_init []) line)"

definition classify_reused :: "ustring \<Rightarrow> ustring \<Rightarrow> error + attributes" where
  "classify_reused l1 l2 =
     (case Parser_parse_line (Parser_init []) l1 of
        Inl e \<Rightarrow> Inl e
      | Inr (a1, p) \<Rightarrow> map_sum id fst (Parser_parse_line p l2))"

section \<open>The contract of the tokenizer, in the words of the specification\<close>

text \<open>
  The nesting counter of an opening character \<open>k\<close> after the text \<open>p\<close>: the number of
  \<open>k\<close> in \<open>p\<close> less the number of its closing characters.
\<close>

definition nesting :: "uchar \<Rightarrow> ustring \<Rightarrow> int" where
  "nesting k p =
     int (length (filter (\<lambda>c. c = k) p)) - int (length (filter (\<lambda>c. ends c = Some k) p))"

definition balanced :: "ustring \<Rightarrow> bool" where
  "balanced p \<longleftrightarrow> (\<forall>k \<in> set depth_keys. nesting k p = 0)"

definition no_negative :: "ustring \<Rightarrow> bool" where
  "no_negative p \<longleftrightarrow> (\<forall>k \<in> set depth_keys. 0 \<le> nesting k p)"

text \<open>
  With \<open>p\<close> already read, the token ends at offset \<open>m\<close> of \<open>rest\<close>: there stands a
  \<^verbatim>\<open>,\<close> or \<^verbatim>\<open>=\<close>, all four counters are zero, no earlier delimiter of \<open>rest\<close> stood at
  counters zero, and no counter has been negative on the way.
\<close>

definition token_end_from :: "ustring \<Rightarrow> ustring \<Rightarrow> nat \<Rightarrow> bool" where
  "token_end_from p rest m \<longleftrightarrow>
     m < length rest \<and> rest ! m \<in> set delims \<and> balanced (p @ take m rest) \<and>
     (\<forall>j \<in> {..<m}. \<not> (rest ! j \<in> set delims \<and> balanced (p @ take j rest))) \<and>
     (\<forall>j \<in> {..m}. no_negative (p @ take j rest))"

definition token_end :: "ustring \<Rightarrow> nat \<Rightarrow> bool" where
  "token_end s i \<longleftrightarrow> token_end_from [] s i"

section \<open>Properties\<close>

subsection \<open>Classification is not total\<close>

text \<open>
  C1 says that classifying a line returns a record for every input and never raises.
  The branch for a numbered line reads \<^verbatim>\<open>segments[2]\<close> without the length test that
  the error branch makes, so the line \<^verbatim>\<open>foo.cpp:10\<close> ends in an \<^verbatim>\<open>IndexError\<close>; and
  \<^verbatim>\<open>int\<close> is applied to a segment of which only the first character is known to be a
  digit, so \<^verbatim>\<open>foo.cpp:1x: y\<close> ends in a \<^verbatim>\<open>ValueError\<close>.
\<close>

theorem classify_raises:
  "classify (u ''foo.cpp:10'') = Inl IndexError \<and>
   classify (u ''foo.cpp:1x: y'') = Inl ValueError"
  by code_simp

subsection \<open>The example of the with clause\<close>

text \<open>
  C2 says that \<^verbatim>\<open>Type<T> [with T = int]\<close> becomes \<^verbatim>\<open>Type<int>\<close> at level Normal, as the
  docstring of the module does. The key \<^verbatim>\<open>T\<close> is replaced wherever it occurs, also in
  the name \<^verbatim>\<open>Type\<close>, and the result is \<^verbatim>\<open>intype<int>\<close>.
\<close>

theorem with_example_clobbered:
  "beautify_line (u ''Type<T> [with T = int]'') LV_NORMAL = Inr (u ''intype<int>'') \<and>
   beautify (u ''Type<T> [with T = int]'') LV_NORMAL = Inr (u ''intype<int>'')"
  by code_simp

subsection \<open>An entry of a with clause without an equals sign\<close>

text \<open>
  C3 says that an entry of a with clause that does not hold exactly one \<^verbatim>\<open>=\<close> is
  skipped and the other entries are still resolved. The unpacking of the split entry
  raises instead: for \<^verbatim>\<open>Foo<T, U> [with T, U = int]\<close> neither the resolver nor the whole
  line returns anything.
\<close>

theorem malformed_with_entry_raises:
  "parse_with_stmts (u ''Foo<T, U> [with T, U = int]'') = Inl ValueError \<and>
   beautify_line (u ''Foo<T, U> [with T, U = int]'') LV_NORMAL = Inl ValueError"
  by code_simp

subsection \<open>The message of a \<^verbatim>\<open>collect2\<close> line\<close>

text \<open>
  C5 says that a classified line has its message text, and that a line whose first
  segment is \<^verbatim>\<open>collect2\<close> gets the kind Message with the other segments joined as its
  message. The \<^verbatim>\<open>collect2\<close> branch sets the type and nothing else: the message stays
  the empty one of \<^verbatim>\<open>__init__\<close>.
\<close>

theorem collect2_message_empty:
  "classify (u ''collect2: ld returned 1 exit status'') =
     Inr \<lparr>a_raw = u ''collect2: ld returned 1 exit status'', a_type = Some LT_MESSAGE,
          a_file = [], a_line = - 1, a_column = - 1,
          a_message = \<lparr>m_raw = [], m_codelist = []\<rparr>, a_sys_file = None\<rparr>"
  by code_simp

subsection \<open>An error line with a column\<close>

text \<open>
  C6, as it is written, quotes the name with ASCII apostrophes (code point 39). The code
  pattern asks for the quotation marks U+2018 and U+2019, so no quoted span is found and
  the one code fragment is the whole message, not \<^verbatim>\<open>x\<close>.
\<close>

theorem classify_ascii_quotes:
  "map_sum id (\<lambda>a. map c_raw (m_codelist (a_message a)))
     (classify (u ''foo.cpp:10:5: error: '' @ [39] @ u ''x'' @ [39] @
                u '' was not declared in this scope''))
   = Inr [[39] @ u ''x'' @ [39] @ u '' was not declared in this scope''] \<and>
   map_sum id (\<lambda>a. map c_raw (m_codelist (a_message a)))
     (classify (u ''foo.cpp:10:5: error: '' @ [39] @ u ''x'' @ [39] @
                u '' was not declared in this scope''))
   \<noteq> Inr [u ''x'']"
  by code_simp

text \<open>
  C6 with the quotation marks that the compiler prints: the line
  \<^verbatim>\<open>foo.cpp:10:5: error: \<close>, U+2018, \<^verbatim>\<open>x\<close>, U+2019, \<^verbatim>\<open> was not declared in this scope\<close>
  is an error in \<^verbatim>\<open>foo.cpp\<close>, line 10, column 5; the message is the text after
  \<^verbatim>\<open>error: \<close> and its one code fragment is \<^verbatim>\<open>x\<close>.
\<close>

theorem classify_error_with_column:
  "classify (u ''foo.cpp:10:5: error: '' @ [lquote] @ u ''x'' @ [rquote] @
             u '' was not declared in this scope'') =
     Inr \<lparr>a_raw = u ''foo.cpp:10:5: error: '' @ [lquote] @ u ''x'' @ [rquote] @
                  u '' was not declared in this scope'',
          a_type = Some LT_ERROR, a_file = u ''foo.cpp'', a_line = 10, a_column = 5,
          a_message = \<lparr>m_raw = [lquote] @ u ''x'' @ [rquote] @
                               u '' was not declared in this scope'',
                       m_codelist = [new_code (u ''x'')]\<rparr>,
          a_sys_file = Some False\<rparr>"
  by code_simp

subsection \<open>One instance for many lines\<close>

text \<open>
  C8 says that a line classified on an instance that has classified another line before
  gives the record of a new instance. \<^verbatim>\<open>parse_line\<close> never resets
  \<^verbatim>\<open>self._attributes\<close>: after \<^verbatim>\<open>foo.cpp:10:5: error: x\<close> the line \<^verbatim>\<open>hello\<close> keeps the
  line number 10 and the column 5, where a new instance gives -1 for both.
\<close>

theorem reused_instance_differs:
  "map_sum id (\<lambda>a. (a_type a, a_file a, a_line a, a_column a))
     (classify_reused (u ''foo.cpp:10:5: error: x'') (u ''hello''))
     = Inr (Some LT_NOTE, u ''<unknown>'', 10, 5) \<and>
   map_sum id (\<lambda>a. (a_type a, a_file a, a_line a, a_column a))
     (classify_fresh (u ''hello''))
     = Inr (Some LT_NOTE, u ''<unknown>'', - 1, - 1)"
  by code_simp

subsection \<open>A column is recorded on error lines only\<close>








subsection \<open>Running the rewriting twice\<close>

lemma collapse_no_pattern: "\<not> py_in (u ''> >'') (collapse s)"
proof (induction s rule: collapse.induct)
  case (1 s)
  show ?case
  proof (cases "py_in (u ''> >'') s")
    case True
    with 1 have "\<not> py_in (u ''> >'') (collapse (py_replace s (u ''> >'') (u ''>>'')))"
      by simp
    with True show ?thesis by (subst collapse.simps) simp
  next
    case False
    then show ?thesis by (subst collapse.simps) simp
  qed
qed

text \<open>
  C7, as far as it holds: the loop that turns \<^verbatim>\<open>> >\<close> into \<^verbatim>\<open>>>\<close> runs until no
  \<^verbatim>\<open>> >\<close> is left, so a second run of it changes nothing.
\<close>

theorem collapse_idempotent: "collapse (collapse s) = collapse s"
  by (subst collapse.simps) (simp add: collapse_no_pattern)

text \<open>
  C7 says that rewriting a rewritten fragment again changes nothing. Each of the other
  steps is a single pass of \<^verbatim>\<open>replace\<close>, and removing \<^verbatim>\<open>std::\<close> can put a new
  \<^verbatim>\<open>std::\<close> together: \<^verbatim>\<open>sstd::td::\<close> becomes \<^verbatim>\<open>std::\<close>, and \<^verbatim>\<open>std::\<close> becomes the empty
  text.
\<close>

theorem beautify_not_idempotent:
  "beautify (u ''sstd::td::'') LV_NORMAL = Inr (u ''std::'') \<and>
   beautify (u ''std::'') LV_NORMAL \<noteq> Inr (u ''std::'')"
  by code_simp

subsection \<open>Suppression at level Moderate\<close>




text \<open>
  The fourth example of the specification: a note in a system file keeps its text.
\<close>

lemma moderate_note_retained:
  "beautify_line (u ''/usr/include/c++/4.4/bits/stl_vector.h:733: note: candidates are: void push_back(const int&)'') LV_MODERATE
     = Inr (u ''note: candidates are: void push_back(const int&)'')"
  by code_simp


subsection \<open>The tokenizer\<close>

lemma nesting_Nil: "nesting k [] = 0"
  by (simp add: nesting_def)

lemma nesting_snoc:
  "nesting k (p @ [c]) =
     nesting k p + (if c = k then 1 else 0) - (if ends c = Some k then 1 else 0)"
  by (simp add: nesting_def)

lemma ends_facts:
  "ends c = Some k \<Longrightarrow> k \<in> set depth_keys \<and> c \<notin> set depth_keys \<and> c \<notin> set delims \<and> c \<noteq> k"
  by (auto simp: ends_def depth_keys_def delims_def split: if_splits)

lemma key_facts:
  "c \<in> set depth_keys \<Longrightarrow> ends c = None \<and> c \<notin> set delims"
  by (auto simp: ends_def depth_keys_def delims_def)

lemma values_zero:
  "(\<forall>k \<in> set depth_keys. d k = nesting k p) \<Longrightarrow> set (depth_values d) = {0} \<longleftrightarrow> balanced p"
  by (auto simp: depth_values_def balanced_def depth_keys_def)

lemma token_end_from_0:
  "token_end_from p (c # cs) 0 \<longleftrightarrow> c \<in> set delims \<and> balanced p \<and> no_negative p"
  by (auto simp: token_end_from_def)

lemma token_end_from_Suc:
  "token_end_from p (c # cs) (Suc m) \<longleftrightarrow>
     \<not> (c \<in> set delims \<and> balanced p) \<and> no_negative p \<and> token_end_from (p @ [c]) cs m"
proof -
  have a: "(\<forall>j \<in> {..<Suc m}. P j) \<longleftrightarrow> P 0 \<and> (\<forall>j \<in> {..<m}. P (Suc j))" for P
    by (simp add: lessThan_Suc_eq_insert_0)
  have b: "(\<forall>j \<in> {..Suc m}. P j) \<longleftrightarrow> P 0 \<and> (\<forall>j \<in> {..m}. P (Suc j))" for P
    by (simp add: atMost_Suc_eq_insert_0)
  show ?thesis
    unfolding token_end_from_def a b by auto
qed


lemma loop_char:
  assumes "\<forall>k \<in> set depth_keys. d k = nesting k p" and "no_negative p"
  shows "next_token_loop line begin d (length p) rest = Some t \<longleftrightarrow>
           (\<exists>m. token_end_from p rest m \<and>
                t = py_strip (slice line begin (begin + length p + m)))"
  using assms
proof (induction rest arbitrary: p d)
  case Nil
  then show ?case by (simp add: token_end_from_def)
next
  case (Cons c cs)
  have ex: "(\<exists>m. Q m) \<longleftrightarrow> Q 0 \<or> (\<exists>m. Q (Suc m))" for Q :: "nat \<Rightarrow> bool"
    by (metis not0_implies_Suc)
  note inv = Cons.prems(1) and nn = Cons.prems(2)
  have zero: "set (depth_values d) = {0} \<longleftrightarrow> balanced p"
    using inv by (rule values_zero)
  show ?case
  proof (cases "c \<in> set delims \<and> balanced p")
    case True
    then show ?thesis
      using nn zero by (subst ex) (auto simp: token_end_from_0 token_end_from_Suc)
  next
    case notdelim: False
    show ?thesis
    proof (cases "c \<in> set depth_keys")
      case True
      let ?d = "d(c := d c + 1)"
      have inv': "\<forall>k \<in> set depth_keys. ?d k = nesting k (p @ [c])"
        using inv True key_facts [OF True] by (auto simp: nesting_snoc)
      have nn': "no_negative (p @ [c])"
        using nn True key_facts [OF True] by (auto simp: no_negative_def nesting_snoc)
      have step: "next_token_loop line begin d (length p) (c # cs) =
                    next_token_loop line begin ?d (length (p @ [c])) cs"
        using notdelim True zero by auto
      show ?thesis
        unfolding step Cons.IH [OF inv' nn']
        using notdelim nn by (subst (2) ex) (auto simp: token_end_from_0 token_end_from_Suc)
    next
      case nokey: False
      show ?thesis
      proof (cases "ends c")
        case None
        have inv': "\<forall>k \<in> set depth_keys. d k = nesting k (p @ [c])"
          using inv nokey None by (auto simp: nesting_snoc)
        have nn': "no_negative (p @ [c])"
          using nn nokey None by (auto simp: no_negative_def nesting_snoc)
        have step: "next_token_loop line begin d (length p) (c # cs) =
                      next_token_loop line begin d (length (p @ [c])) cs"
          using notdelim nokey None zero by auto
        show ?thesis
          unfolding step Cons.IH [OF inv' nn']
          using notdelim nn by (subst (2) ex) (auto simp: token_end_from_0 token_end_from_Suc)
      next
        case (Some k)
        note ef = ends_facts [OF Some]
        let ?d = "d(k := d k - 1)"
        have inv': "\<forall>k' \<in> set depth_keys. ?d k' = nesting k' (p @ [c])"
          using inv nokey Some by (auto simp: nesting_snoc)
        show ?thesis
        proof (cases "?d k < 0")
          case True
          then have neg: "nesting k (p @ [c]) < 0"
            using inv' ef by auto
          then have nneg: "\<not> no_negative (p @ [c])"
            using ef unfolding no_negative_def by (metis not_le)
          have no: "\<not> token_end_from (p @ [c]) cs m" for m
          proof (rule notI)
            assume "token_end_from (p @ [c]) cs m"
            then have "\<forall>j \<in> {..m}. no_negative ((p @ [c]) @ take j cs)"
              unfolding token_end_from_def by blast
            then have "no_negative ((p @ [c]) @ take 0 cs)"
              by (metis atMost_iff le0)
            with nneg show False by simp
          qed
          have "next_token_loop line begin d (length p) (c # cs) = None"
            using notdelim nokey Some zero True by (auto simp: Let_def)
          then show ?thesis
            using notdelim no by (subst ex) (auto simp: token_end_from_0 token_end_from_Suc)
        next
          case False
          have nn': "no_negative (p @ [c])"
            unfolding no_negative_def
          proof
            fix k' assume k': "k' \<in> set depth_keys"
            show "0 \<le> nesting k' (p @ [c])"
            proof (cases "k' = k")
              case True
              then show ?thesis using False inv' k' by auto
            next
              case neq: False
              then show ?thesis
                using nn k' nokey Some by (auto simp: no_negative_def nesting_snoc)
            qed
          qed
          have step: "next_token_loop line begin d (length p) (c # cs) =
                        next_token_loop line begin ?d (length (p @ [c])) cs"
            using notdelim nokey Some zero False by (auto simp: Let_def)
          show ?thesis
            unfolding step Cons.IH [OF inv' nn']
            using notdelim nn by (subst (2) ex) (auto simp: token_end_from_0 token_end_from_Suc)
        qed
      qed
    qed
  qed
qed

text \<open>
  C9: for every text and start offset, \<^verbatim>\<open>_next_token\<close> returns a token exactly when the
  text from the offset on has a \<^verbatim>\<open>,\<close> or \<^verbatim>\<open>=\<close> at which all four counters are zero and
  before which no counter has been negative; the token is then the text from the offset
  up to the first such delimiter, without the space around it. In every other case (a
  counter would be negative first, or the text ends without such a delimiter) the
  result is \<^verbatim>\<open>None\<close>.
\<close>

theorem next_token_contract:
  "next_token line begin = Some t \<longleftrightarrow>
     (\<exists>i. token_end (drop begin line) i \<and> t = py_strip (take i (drop begin line)))"
proof -
  have "next_token_loop line begin depth_init (length ([]::ustring)) (drop begin line) = Some t \<longleftrightarrow>
          (\<exists>m. token_end_from [] (drop begin line) m \<and>
               t = py_strip (slice line begin (begin + length ([]::ustring) + m)))"
    by (rule loop_char) (simp_all add: depth_init_def nesting_Nil no_negative_def)
  then show ?thesis
    by (simp add: next_token_def token_end_def slice_def)
qed

theorem next_token_contract_witness:
  "token_end (drop 2 (u ''x a<b,c> =d'')) 7 \<and>
   next_token (u ''x a<b,c> =d'') 2 = Some (u ''a<b,c>'')"
proof -
  have h: "token_end (drop 2 (u ''x a<b,c> =d'')) 7"
    by (simp add: token_end_def token_end_from_def balanced_def no_negative_def nesting_def
          u_def delims_def depth_keys_def ends_def lessThan_nat_numeral atMost_nat_numeral
          lessThan_Suc atMost_Suc)
  have e: "py_strip (take 7 (drop 2 (u ''x a<b,c> =d''))) = u ''a<b,c>''"
    by code_simp
  from h have "\<exists>i. token_end (drop 2 (u ''x a<b,c> =d'')) i \<and>
      py_strip (take 7 (drop 2 (u ''x a<b,c> =d''))) =
      py_strip (take i (drop 2 (u ''x a<b,c> =d'')))"
    by blast
  then have "next_token (u ''x a<b,c> =d'') 2 =
      Some (py_strip (take 7 (drop 2 (u ''x a<b,c> =d''))))"
    by (rule iffD2 [OF next_token_contract])
  with h e show ?thesis by simp
qed

end
